theory Spec2Isabelle
  imports Main "HOL-Library.Word"
begin

section \<open>The Arduino collaborators\<close>

text \<open>
  \<open>StatusLed.cpp\<close> talks to the board through three calls of the Arduino core:
  \<open>pinMode\<close>, \<open>digitalWrite\<close> and \<open>millis\<close>. The core is not part of the repository, so
  the board is modelled by what the library can observe and cause: the value the
  millisecond counter currently shows, and the chronological log of the pin calls made.
\<close>

type_synonym uint8_t = "8 word"

text \<open>Modelled from the spec: the two logical levels (the macros \<open>LOW\<close> and \<open>HIGH\<close>).\<close>

datatype level = LOW | HIGH

text \<open>Modelled from the spec: the pin configurations (the macros \<open>INPUT\<close>, \<open>OUTPUT\<close>, ...).\<close>

datatype pin_mode = INPUT | OUTPUT | INPUT_PULLUP

datatype pin_call = PinMode uint8_t pin_mode | DigitalWrite uint8_t level

text \<open>
  The width of \<open>unsigned long\<close> depends on the platform (32 bits on the Arduino boards),
  so the type of the counter is a parameter, instantiated below by \<open>'w word\<close> for any
  width \<open>'w\<close>.
\<close>

record 't board =
  clock :: 't
  pin_calls :: "pin_call list"

text \<open>Modelled from the spec: \<open>millis()\<close> reads the monotonic millisecond clock.\<close>

definition millis :: "'w::len word board \<Rightarrow> 'w word" where
  "millis b = clock b"

text \<open>Modelled from the spec: \<open>pinMode(pin, mode)\<close> configures the pin; it always succeeds.\<close>

definition pinMode ::
  "uint8_t \<Rightarrow> pin_mode \<Rightarrow> 'w::len word board \<Rightarrow> 'w word board" where
  "pinMode p m b = b\<lparr>pin_calls := pin_calls b @ [PinMode p m]\<rparr>"

text \<open>
  Modelled from the spec: \<open>digitalWrite(pin, level)\<close> writes the level to the pin,
  synchronously, and always succeeds.
\<close>

definition digitalWrite ::
  "uint8_t \<Rightarrow> level \<Rightarrow> 'w::len word board \<Rightarrow> 'w word board" where
  "digitalWrite p v b = b\<lparr>pin_calls := pin_calls b @ [DigitalWrite p v]\<rparr>"

text \<open>The last level written to pin \<open>p\<close> in a log, if there was a write to \<open>p\<close> at all.\<close>

fun written :: "uint8_t \<Rightarrow> pin_call \<Rightarrow> level option" where
  "written p (DigitalWrite q v) = (if q = p then Some v else None)"
| "written p (PinMode q m) = None"

fun last_level :: "uint8_t \<Rightarrow> pin_call list \<Rightarrow> level option" where
  "last_level p [] = None"
| "last_level p (c # cs) =
     (case last_level p cs of Some v \<Rightarrow> Some v | None \<Rightarrow> written p c)"

section \<open>The class \<open>StatusLed\<close>\<close>

record 't StatusLed =
  pin :: uint8_t
  state :: bool
  lastToggle :: 't

text \<open>The constructor: \<open>_pin(pin), _state(false), _lastToggle(0)\<close>.\<close>

definition StatusLed_ctor :: "uint8_t \<Rightarrow> 'w::len word StatusLed" where
  "StatusLed_ctor p = \<lparr>pin = p, state = False, lastToggle = 0\<rparr>"

text \<open>
  A member function takes the object and the board and returns both as it leaves them.
\<close>

type_synonym 'w sys = "'w word StatusLed \<times> 'w word board"

definition StatusLed_begin :: "'w::len sys \<Rightarrow> 'w sys" where
  "StatusLed_begin = (\<lambda>(self, b).
     let b1 = pinMode (pin self) OUTPUT b;
         b2 = digitalWrite (pin self) LOW b1
     in (self, b2))"

definition StatusLed_blink ::
  "'w::len word \<Rightarrow> 'w sys \<Rightarrow> 'w sys" where
  "StatusLed_blink intervalMs = (\<lambda>(self, b).
     let now = millis b in
     if now - lastToggle self \<ge> intervalMs then
       let self1 = self\<lparr>state := \<not> state self\<rparr>;
           b1 = digitalWrite (pin self1) (if state self1 then HIGH else LOW) b;
           self2 = self1\<lparr>lastToggle := now\<rparr>
       in (self2, b1)
     else (self, b))"

section \<open>Sequences of calls\<close>

text \<open>
  What can happen to an object and its board: a call of \<open>begin()\<close>, a call of
  \<open>blink(intervalMs)\<close>, and the clock moving on to another value.
\<close>

datatype 't event = Begin | Blink 't | Clock 't

fun step :: "'w::len word event \<Rightarrow> 'w sys \<Rightarrow> 'w sys" where
  "step Begin s = StatusLed_begin s"
| "step (Blink intervalMs) s = StatusLed_blink intervalMs s"
| "step (Clock t) s = (fst s, (snd s)\<lparr>clock := t\<rparr>)"

fun run :: "'w::len word event list \<Rightarrow> 'w sys \<Rightarrow> 'w sys" where
  "run [] s = s"
| "run (e # es) s = run es (step e s)"

text \<open>The level that stands for a value of \<open>_state\<close>: \<open>_state ? HIGH : LOW\<close>.\<close>

definition level_of :: "bool \<Rightarrow> level" where
  "level_of st = (if st then HIGH else LOW)"

text \<open>
  The object and the pin agree: once the pin has been written, the last level written
  is the one \<open>_state\<close> stands for.
\<close>

definition in_sync :: "'w::len sys \<Rightarrow> bool" where
  "in_sync s =
     (case last_level (pin (fst s)) (pin_calls (snd s)) of
        None \<Rightarrow> True
      | Some v \<Rightarrow> v = level_of (state (fst s)))"

text \<open>Every \<open>begin()\<close> of the sequence is called on an object whose \<open>_state\<close> is false.\<close>

fun begin_while_off :: "'w::len word event list \<Rightarrow> 'w sys \<Rightarrow> bool" where
  "begin_while_off [] s = True"
| "begin_while_off (e # es) s =
     ((case e of Begin \<Rightarrow> \<not> state (fst s) | _ \<Rightarrow> True) \<and> begin_while_off es (step e s))"

section \<open>Helper facts\<close>

lemma last_level_append:
  "last_level p (cs @ ds) =
     (case last_level p ds of Some v \<Rightarrow> Some v | None \<Rightarrow> last_level p cs)"
  by (induction cs) (auto split: option.splits)

lemma blink_due:
  "intervalMs \<le> millis b - lastToggle self \<Longrightarrow>
   StatusLed_blink intervalMs (self, b) =
     (self\<lparr>state := \<not> state self, lastToggle := millis b\<rparr>,
      b\<lparr>pin_calls := pin_calls b @ [DigitalWrite (pin self) (level_of (\<not> state self))]\<rparr>)"
  by (simp add: StatusLed_blink_def digitalWrite_def level_of_def Let_def)

lemma blink_not_due:
  "\<not> intervalMs \<le> millis b - lastToggle self \<Longrightarrow>
   StatusLed_blink intervalMs (self, b) = (self, b)"
  by (simp add: StatusLed_blink_def Let_def)

lemma begin_result:
  "StatusLed_begin (self, b) =
     (self, b\<lparr>pin_calls := pin_calls b @ [PinMode (pin self) OUTPUT, DigitalWrite (pin self) LOW]\<rparr>)"
  by (simp add: StatusLed_begin_def pinMode_def digitalWrite_def Let_def)

text \<open>The unsigned difference of a clock value that has wrapped below the time stamp.\<close>

lemma unat_sub_wrapped:
  fixes now lastT :: "'w::len word"
  assumes "now < lastT"
  shows "unat (now - lastT) = 2 ^ LENGTH('w) - unat lastT + unat now"
proof -
  have "unat lastT < 2 ^ LENGTH('w)"
    by (rule unsigned_less)
  moreover have "unat now < unat lastT"
    using assms by (simp add: word_less_nat_alt)
  ultimately show ?thesis
    unfolding unat_sub_if' by arith
qed

text \<open>Numbers below 1024 are not truncated by a counter of ten bits or more.\<close>

lemma take_bit_small:
  fixes k :: int
  assumes "10 \<le> LENGTH('w::len)" and "0 \<le> k" and "k < 1024"
  shows "take_bit LENGTH('w) k = k"
proof -
  have "(2::int) ^ 10 \<le> 2 ^ LENGTH('w)"
    using assms(1) by (rule power_increasing) simp
  then have "(1024::int) \<le> 2 ^ LENGTH('w)"
    by simp
  with assms(3) have "k < 2 ^ LENGTH('w)"
    by (rule less_le_trans)
  with assms(2) show ?thesis
    by (simp add: take_bit_int_eq_self)
qed

subsection \<open>The object and the pin stay in step\<close>

lemma in_sync_blink: "in_sync s \<Longrightarrow> in_sync (StatusLed_blink i s)"
proof (cases s)
  case (Pair self b)
  assume "in_sync s"
  with Pair show ?thesis
    by (cases "i \<le> millis b - lastToggle self")
      (simp_all add: blink_due blink_not_due in_sync_def last_level_append)
qed

lemma in_sync_begin: "\<not> state (fst s) \<Longrightarrow> in_sync (StatusLed_begin s)"
  by (cases s) (simp add: begin_result in_sync_def last_level_append level_of_def)

lemma out_of_sync_begin: "state (fst s) \<Longrightarrow> \<not> in_sync (StatusLed_begin s)"
  by (cases s) (simp add: begin_result in_sync_def last_level_append level_of_def)

lemma in_sync_step:
  "in_sync s \<Longrightarrow> (e = Begin \<Longrightarrow> \<not> state (fst s)) \<Longrightarrow> in_sync (step e s)"
proof (cases e)
  case Begin
  assume "e = Begin \<Longrightarrow> \<not> state (fst s)"
  with Begin show ?thesis
    by (simp add: in_sync_begin)
next
  case (Blink i)
  assume "in_sync s"
  with Blink show ?thesis
    by (simp add: in_sync_blink)
next
  case (Clock t)
  assume "in_sync s"
  with Clock show ?thesis
    by (simp add: in_sync_def split: option.splits)
qed

lemma in_sync_run:
  "in_sync s \<Longrightarrow> begin_while_off es s \<Longrightarrow> in_sync (run es s)"
proof (induction es arbitrary: s)
  case Nil
  then show ?case by simp
next
  case (Cons e es)
  from Cons.prems have "in_sync (step e s)"
    by (intro in_sync_step) (auto split: event.splits)
  moreover from Cons.prems have "begin_while_off es (step e s)"
    by simp
  ultimately show ?case
    using Cons.IH by simp
qed

subsection \<open>The pin of the object\<close>

lemma pin_step: "pin (fst (step e s)) = pin (fst s)"
proof (cases s)
  case (Pair self b)
  then show ?thesis
    by (cases e) (simp_all add: begin_result StatusLed_blink_def Let_def)
qed

lemma pin_run: "pin (fst (run es s)) = pin (fst s)"
  by (induction es arbitrary: s) (simp_all add: pin_step)

section \<open>Properties of \<open>blink\<close>\<close>

text \<open>
  C1. Whatever the object and the clock value \<open>now\<close>: when the elapsed time
  \<open>now - _lastToggle\<close> (unsigned, wrapping) is at least \<open>intervalMs\<close>, \<open>blink\<close> flips
  \<open>_state\<close> once, makes exactly one pin call, the write to its pin of the level of the
  new \<open>_state\<close> (HIGH iff it is true), and sets \<open>_lastToggle\<close> to \<open>now\<close>.
\<close>

theorem blink_toggles_on_threshold:
  assumes "millis b - lastToggle self \<ge> intervalMs"
    and "StatusLed_blink intervalMs (self, b) = (self', b')"
  shows "state self' = (\<not> state self)
    \<and> pin_calls b' = pin_calls b @ [DigitalWrite (pin self) (if state self' then HIGH else LOW)]
    \<and> (last_level (pin self) (pin_calls b') = Some HIGH \<longleftrightarrow> state self')
    \<and> (last_level (pin self) (pin_calls b') = Some LOW \<longleftrightarrow> \<not> state self')
    \<and> lastToggle self' = millis b
    \<and> clock b' = clock b"
  using assms by (auto simp: blink_due level_of_def last_level_append)

theorem blink_toggles_on_threshold_witness:
  "state (fst (StatusLed_blink 500 (StatusLed_ctor 13, \<lparr>clock = 500 :: 32 word, pin_calls = []\<rparr>)))
   \<and> pin_calls (snd (StatusLed_blink 500 (StatusLed_ctor 13, \<lparr>clock = 500 :: 32 word, pin_calls = []\<rparr>)))
       = [DigitalWrite 13 HIGH]
   \<and> lastToggle (fst (StatusLed_blink 500 (StatusLed_ctor 13, \<lparr>clock = 500 :: 32 word, pin_calls = []\<rparr>)))
       = 500"
proof -
  let ?self = "StatusLed_ctor 13 :: 32 word StatusLed"
  let ?b = "\<lparr>clock = 500 :: 32 word, pin_calls = []\<rparr>"
  have due: "millis ?b - lastToggle ?self \<ge> 500"
    by (simp add: millis_def StatusLed_ctor_def)
  have res: "StatusLed_blink 500 (?self, ?b)
      = (fst (StatusLed_blink 500 (?self, ?b)), snd (StatusLed_blink 500 (?self, ?b)))"
    by simp
  show ?thesis
    using blink_toggles_on_threshold [OF due res]
    by (simp add: StatusLed_ctor_def millis_def)
qed

text \<open>
  C2. Whatever the object and the clock value: when the elapsed time is strictly less
  than \<open>intervalMs\<close>, \<open>blink\<close> leaves \<open>_state\<close> and \<open>_lastToggle\<close> as they were.
\<close>

theorem blink_noop_before_interval:
  assumes "millis b - lastToggle self < intervalMs"
  shows "state (fst (StatusLed_blink intervalMs (self, b))) = state self
    \<and> lastToggle (fst (StatusLed_blink intervalMs (self, b))) = lastToggle self"
  using assms by (simp add: blink_not_due not_le)

theorem blink_noop_before_interval_witness:
  "state (fst (StatusLed_blink 500 (StatusLed_ctor 13, \<lparr>clock = 300 :: 32 word, pin_calls = []\<rparr>)))
     = False
   \<and> lastToggle (fst (StatusLed_blink 500 (StatusLed_ctor 13, \<lparr>clock = 300 :: 32 word, pin_calls = []\<rparr>)))
     = 0"
proof -
  let ?self = "StatusLed_ctor 13 :: 32 word StatusLed"
  let ?b = "\<lparr>clock = 300 :: 32 word, pin_calls = []\<rparr>"
  have early: "millis ?b - lastToggle ?self < 500"
    by (simp add: millis_def StatusLed_ctor_def)
  show ?thesis
    using blink_noop_before_interval [OF early]
    by (simp add: StatusLed_ctor_def)
qed

text \<open>
  C3. The clock has wrapped past zero since the last toggle: it now reads \<open>now\<close>, below
  the time stamp \<open>lastT\<close>, so the time that really went by is what was left up to the
  wrap, \<open>2 ^ w - lastT\<close>, plus \<open>now\<close>. The unsigned subtraction of \<open>blink\<close> yields just
  that duration, and \<open>blink\<close> decides as it does for any clock \<open>now0\<close> and time stamp
  \<open>last0 \<le> now0\<close> that are the same duration apart without a wrap: same \<open>_state\<close>, same
  pin calls, and a toggle exactly when the duration has reached \<open>intervalMs\<close>.
\<close>

theorem blink_wraparound_safe:
  fixes lastT now last0 now0 intervalMs :: "'w::len word"
  assumes wrapped: "now < lastT"
    and plain: "last0 \<le> now0"
    and same: "unat now0 - unat last0 = 2 ^ LENGTH('w) - unat lastT + unat now"
  shows "unat (millis (b\<lparr>clock := now\<rparr>) - lastToggle (self\<lparr>lastToggle := lastT\<rparr>))
      = 2 ^ LENGTH('w) - unat lastT + unat now
    \<and> state (fst (StatusLed_blink intervalMs (self\<lparr>lastToggle := lastT\<rparr>, b\<lparr>clock := now\<rparr>)))
      = state (fst (StatusLed_blink intervalMs (self\<lparr>lastToggle := last0\<rparr>, b\<lparr>clock := now0\<rparr>)))
    \<and> pin_calls (snd (StatusLed_blink intervalMs (self\<lparr>lastToggle := lastT\<rparr>, b\<lparr>clock := now\<rparr>)))
      = pin_calls (snd (StatusLed_blink intervalMs (self\<lparr>lastToggle := last0\<rparr>, b\<lparr>clock := now0\<rparr>)))
    \<and> (state (fst (StatusLed_blink intervalMs (self\<lparr>lastToggle := lastT\<rparr>, b\<lparr>clock := now\<rparr>)))
        \<noteq> state self
      \<longleftrightarrow> unat intervalMs \<le> 2 ^ LENGTH('w) - unat lastT + unat now)"
proof -
  let ?d = "2 ^ LENGTH('w) - unat lastT + unat now"
  have elapsed: "unat (now - lastT) = ?d"
    using wrapped by (rule unat_sub_wrapped)
  have "unat (now0 - last0) = ?d"
    using plain same by (simp add: unat_sub)
  with elapsed have eq: "now0 - last0 = now - lastT"
    by (simp add: word_unat_eq_iff)
  have due: "intervalMs \<le> now - lastT \<longleftrightarrow> unat intervalMs \<le> ?d"
    by (simp only: word_le_nat_alt elapsed)
  show ?thesis
  proof (cases "intervalMs \<le> now - lastT")
    case True
    then show ?thesis
      using elapsed eq due by (simp add: blink_due millis_def)
  next
    case False
    then show ?thesis
      using elapsed eq due by (simp add: blink_not_due millis_def)
  qed
qed

theorem blink_wraparound_safe_witness:
  "(150 :: 32 word) < 4294967196 \<and> (1000 :: 32 word) \<le> 1250
   \<and> unat ((150 :: 32 word) - 4294967196) = 250
   \<and> state (fst (StatusLed_blink 200
        (StatusLed_ctor 13 \<lparr>lastToggle := 4294967196 :: 32 word\<rparr>, \<lparr>clock = 150, pin_calls = []\<rparr>)))
   \<and> state (fst (StatusLed_blink 200
        (StatusLed_ctor 13 \<lparr>lastToggle := 1000 :: 32 word\<rparr>, \<lparr>clock = 1250, pin_calls = []\<rparr>)))"
proof -
  have wrapped: "(150 :: 32 word) < 4294967196"
    by simp
  have plain: "(1000 :: 32 word) \<le> 1250"
    by simp
  have same: "unat (1250 :: 32 word) - unat (1000 :: 32 word)
      = 2 ^ LENGTH(32) - unat (4294967196 :: 32 word) + unat (150 :: 32 word)"
    by simp
  show ?thesis
    using wrapped plain
      blink_wraparound_safe [OF wrapped plain same, of "\<lparr>clock = 0, pin_calls = []\<rparr>"
        "StatusLed_ctor 13" 200]
    by (auto simp add: millis_def StatusLed_ctor_def)
qed

text \<open>
  C8. With \<open>intervalMs = 0\<close> every call of \<open>blink\<close> toggles, whatever the object and the
  clock: \<open>_state\<close> is flipped, its new level is written to the pin, and \<open>_lastToggle\<close>
  becomes the clock value.
\<close>

theorem blink_zero_interval_always_toggles:
  "StatusLed_blink 0 (self, b) =
     (self\<lparr>state := \<not> state self, lastToggle := millis b\<rparr>,
      b\<lparr>pin_calls := pin_calls b @ [DigitalWrite (pin self) (if \<not> state self then HIGH else LOW)]\<rparr>)"
  by (simp add: blink_due level_of_def)

text \<open>
  C9. When the elapsed time is strictly less than \<open>intervalMs\<close>, \<open>blink\<close> makes no pin
  call at all: the board is left exactly as it was.
\<close>

theorem blink_noop_writes_nothing:
  assumes "millis b - lastToggle self < intervalMs"
  shows "snd (StatusLed_blink intervalMs (self, b)) = b
    \<and> pin_calls (snd (StatusLed_blink intervalMs (self, b))) = pin_calls b"
  using assms by (simp add: blink_not_due not_le)

theorem blink_noop_writes_nothing_witness:
  "pin_calls (snd (StatusLed_blink 500
      (\<lparr>pin = 13, state = True, lastToggle = 500 :: 32 word\<rparr>,
       \<lparr>clock = 800, pin_calls = [DigitalWrite 13 HIGH]\<rparr>)))
   = [DigitalWrite 13 HIGH]"
proof -
  let ?self = "\<lparr>pin = 13, state = True, lastToggle = 500 :: 32 word\<rparr>"
  let ?b = "\<lparr>clock = 800 :: 32 word, pin_calls = [DigitalWrite 13 HIGH]\<rparr>"
  have early: "millis ?b - lastToggle ?self < 500"
    by (simp add: millis_def)
  show ?thesis
    using blink_noop_writes_nothing [OF early] by simp
qed

text \<open>
  C10. Two successive calls of \<open>blink\<close> that both meet their threshold, the second one
  at the clock value \<open>t2\<close> and measured from the time stamp the first one has left in
  the object: both toggle. The first negates \<open>_state\<close> and writes its level, the second
  negates it again and writes that level, so that \<open>_state\<close> is back to what it was
  before the first call.
\<close>

theorem blink_twice_restores_state:
  assumes first: "intervalMs1 \<le> millis b - lastToggle self"
    and result1: "StatusLed_blink intervalMs1 (self, b) = (self1, b1)"
    and second: "intervalMs2 \<le> millis (b1\<lparr>clock := t2\<rparr>) - lastToggle self1"
    and result2: "StatusLed_blink intervalMs2 (step (Clock t2) (self1, b1)) = (self2, b2)"
  shows "state self1 = (\<not> state self)
    \<and> state self2 = (\<not> state self1)
    \<and> state self2 = state self
    \<and> pin_calls b1 = pin_calls b @ [DigitalWrite (pin self) (if state self1 then HIGH else LOW)]
    \<and> pin_calls b2 = pin_calls b1 @ [DigitalWrite (pin self) (if state self2 then HIGH else LOW)]
    \<and> lastToggle self1 = millis b
    \<and> lastToggle self2 = t2"
proof -
  have one: "self1 = self\<lparr>state := \<not> state self, lastToggle := millis b\<rparr>"
    and board1: "b1 = b\<lparr>pin_calls := pin_calls b @ [DigitalWrite (pin self) (level_of (\<not> state self))]\<rparr>"
    using result1 by (simp_all add: blink_due [OF first])
  have "StatusLed_blink intervalMs2 (self1, b1\<lparr>clock := t2\<rparr>) =
      (self1\<lparr>state := \<not> state self1, lastToggle := millis (b1\<lparr>clock := t2\<rparr>)\<rparr>,
       b1\<lparr>clock := t2, pin_calls := pin_calls (b1\<lparr>clock := t2\<rparr>)
          @ [DigitalWrite (pin self1) (level_of (\<not> state self1))]\<rparr>)"
    using second by (rule blink_due)
  with result2 have two: "self2 = self1\<lparr>state := \<not> state self1, lastToggle := t2\<rparr>"
    and board2: "pin_calls b2 = pin_calls b1 @ [DigitalWrite (pin self1) (level_of (\<not> state self1))]"
    by (auto simp add: millis_def)
  show ?thesis
    using one board1 two board2 by (simp add: level_of_def)
qed

theorem blink_twice_restores_state_witness:
  "state (fst (StatusLed_blink 500 (StatusLed_ctor 13, \<lparr>clock = 500 :: 32 word, pin_calls = []\<rparr>)))
   \<and> \<not> state (fst (StatusLed_blink 500 (step (Clock 1000)
        (StatusLed_blink 500 (StatusLed_ctor 13, \<lparr>clock = 500 :: 32 word, pin_calls = []\<rparr>)))))
   \<and> pin_calls (snd (StatusLed_blink 500 (step (Clock 1000)
        (StatusLed_blink 500 (StatusLed_ctor 13, \<lparr>clock = 500 :: 32 word, pin_calls = []\<rparr>)))))
      = [DigitalWrite 13 HIGH, DigitalWrite 13 LOW]"
proof -
  let ?self = "StatusLed_ctor 13 :: 32 word StatusLed"
  let ?b = "\<lparr>clock = 500 :: 32 word, pin_calls = []\<rparr>"
  let ?r1 = "StatusLed_blink 500 (?self, ?b)"
  let ?r2 = "StatusLed_blink 500 (step (Clock 1000) (fst ?r1, snd ?r1))"
  have first: "500 \<le> millis ?b - lastToggle ?self"
    by (simp add: millis_def StatusLed_ctor_def)
  have result1: "?r1 = (fst ?r1, snd ?r1)"
    by simp
  have second: "500 \<le> millis ((snd ?r1)\<lparr>clock := 1000\<rparr>) - lastToggle (fst ?r1)"
    by (simp add: blink_due [OF first] millis_def)
  have result2: "?r2 = (fst ?r2, snd ?r2)"
    by simp
  show ?thesis
    using blink_twice_restores_state [OF first result1 second result2]
    by (simp add: StatusLed_ctor_def)
qed

section \<open>Properties of \<open>begin\<close> and of sequences of calls\<close>

text \<open>
  C4, as the code has it. Whatever the object, right after \<open>begin()\<close> the last level
  written to its pin is LOW. \<open>begin()\<close> does not assign \<open>_state\<close>: it is false after the
  call exactly when it was false before, as it is for a freshly constructed object.
\<close>

theorem begin_drives_pin_low:
  "last_level (pin self) (pin_calls (snd (StatusLed_begin (self, b)))) = Some LOW
   \<and> state (fst (StatusLed_begin (self, b))) = state self
   \<and> state (fst (StatusLed_begin (StatusLed_ctor p, b))) = False"
  by (simp add: begin_result last_level_append StatusLed_ctor_def)

text \<open>
  C4, as it is written, fails on an object that has toggled to HIGH: after \<open>begin()\<close> the
  pin is LOW and \<open>_state\<close> is still true.
\<close>

theorem begin_keeps_state_counterexample:
  "state (fst (StatusLed_begin (run [Begin, Clock 500, Blink 500]
      (StatusLed_ctor 13, \<lparr>clock = 0 :: 32 word, pin_calls = []\<rparr>))))
   \<and> last_level 13 (pin_calls (snd (StatusLed_begin (run [Begin, Clock 500, Blink 500]
      (StatusLed_ctor 13, \<lparr>clock = 0 :: 32 word, pin_calls = []\<rparr>))))) = Some LOW"
  by (simp add: StatusLed_ctor_def begin_result StatusLed_blink_def millis_def digitalWrite_def)

text \<open>
  C5, as the code has it. Start from a freshly constructed object and a pin not yet
  written, and let any sequence of \<open>begin()\<close> calls, \<open>blink\<close> calls and clock changes
  happen in which \<open>begin()\<close> is only called while \<open>_state\<close> is false. Then in the state
  reached, once the pin has been written, the last level written to it is the level of
  \<open>_state\<close>.
\<close>

theorem in_sync_while_begin_called_off:
  assumes "pin_calls b = []"
    and "begin_while_off es (StatusLed_ctor p, b)"
  shows "in_sync (run es (StatusLed_ctor p, b))"
proof -
  have "in_sync (StatusLed_ctor p, b)"
    using assms(1) by (simp add: in_sync_def)
  then show ?thesis
    using assms(2) by (rule in_sync_run)
qed

theorem in_sync_while_begin_called_off_witness:
  "begin_while_off [Begin, Clock 500, Blink 500, Clock 800, Blink 500]
     (StatusLed_ctor 13, \<lparr>clock = 0 :: 32 word, pin_calls = []\<rparr>)
   \<and> in_sync (run [Begin, Clock 500, Blink 500, Clock 800, Blink 500]
     (StatusLed_ctor 13, \<lparr>clock = 0 :: 32 word, pin_calls = []\<rparr>))"
proof -
  let ?b = "\<lparr>clock = 0 :: 32 word, pin_calls = []\<rparr>"
  let ?es = "[Begin, Clock 500, Blink 500, Clock 800, Blink 500] :: 32 word event list"
  have none: "pin_calls ?b = []"
    by simp
  have off: "begin_while_off ?es (StatusLed_ctor 13, ?b)"
    by (simp add: StatusLed_ctor_def)
  show ?thesis
    using off in_sync_while_begin_called_off [OF none off] by simp
qed

text \<open>
  C5, as it is written, fails when \<open>begin()\<close> is called again after a toggle to HIGH:
  the last level written is LOW while \<open>_state\<close> is true.
\<close>

theorem in_sync_lost_by_begin_counterexample:
  "\<not> in_sync (run [Begin, Clock 500, Blink 500, Begin]
      (StatusLed_ctor 13, \<lparr>clock = 0 :: 32 word, pin_calls = []\<rparr>))"
  by (simp add: StatusLed_ctor_def begin_result StatusLed_blink_def millis_def digitalWrite_def
      in_sync_def level_of_def)

text \<open>
  C6. The scenario, on any counter of at least ten bits (\<open>unsigned long\<close> has at least
  32) and from any clock value at \<open>begin()\<close>: constructed with pin 13, \<open>begin()\<close> drives
  the pin LOW; \<open>blink(500)\<close> at clock 0 changes nothing; at clock 500 it toggles to HIGH
  and stamps 500; at clock 800 it changes nothing; at clock 1000 it toggles to LOW and
  stamps 1000.
\<close>

theorem scenario_pin13:
  fixes t0 :: "'w::len word"
  assumes w: "10 \<le> LENGTH('w)"
  shows "run [Begin] (StatusLed_ctor 13, \<lparr>clock = t0, pin_calls = []\<rparr>)
      = (\<lparr>pin = 13, state = False, lastToggle = 0\<rparr>,
         \<lparr>clock = t0, pin_calls = [PinMode 13 OUTPUT, DigitalWrite 13 LOW]\<rparr>)
    \<and> run [Begin, Clock 0, Blink 500] (StatusLed_ctor 13, \<lparr>clock = t0, pin_calls = []\<rparr>)
      = (\<lparr>pin = 13, state = False, lastToggle = 0\<rparr>,
         \<lparr>clock = 0, pin_calls = [PinMode 13 OUTPUT, DigitalWrite 13 LOW]\<rparr>)
    \<and> run [Begin, Clock 0, Blink 500, Clock 500, Blink 500]
           (StatusLed_ctor 13, \<lparr>clock = t0, pin_calls = []\<rparr>)
      = (\<lparr>pin = 13, state = True, lastToggle = 500\<rparr>,
         \<lparr>clock = 500, pin_calls = [PinMode 13 OUTPUT, DigitalWrite 13 LOW, DigitalWrite 13 HIGH]\<rparr>)
    \<and> run [Begin, Clock 0, Blink 500, Clock 500, Blink 500, Clock 800, Blink 500]
           (StatusLed_ctor 13, \<lparr>clock = t0, pin_calls = []\<rparr>)
      = (\<lparr>pin = 13, state = True, lastToggle = 500\<rparr>,
         \<lparr>clock = 800, pin_calls = [PinMode 13 OUTPUT, DigitalWrite 13 LOW, DigitalWrite 13 HIGH]\<rparr>)
    \<and> run [Begin, Clock 0, Blink 500, Clock 500, Blink 500, Clock 800, Blink 500,
            Clock 1000, Blink 500]
           (StatusLed_ctor 13, \<lparr>clock = t0, pin_calls = []\<rparr>)
      = (\<lparr>pin = 13, state = False, lastToggle = 1000\<rparr>,
         \<lparr>clock = 1000, pin_calls = [PinMode 13 OUTPUT, DigitalWrite 13 LOW, DigitalWrite 13 HIGH,
            DigitalWrite 13 LOW]\<rparr>)"
  by (simp add: StatusLed_ctor_def begin_result StatusLed_blink_def millis_def digitalWrite_def
      take_bit_small [OF w])

theorem scenario_pin13_witness:
  "10 \<le> LENGTH(32)
   \<and> run [Begin, Clock 0, Blink 500, Clock 500, Blink 500, Clock 800, Blink 500,
           Clock 1000, Blink 500]
          (StatusLed_ctor 13, \<lparr>clock = 0 :: 32 word, pin_calls = []\<rparr>)
     = (\<lparr>pin = 13, state = False, lastToggle = 1000\<rparr>,
        \<lparr>clock = 1000, pin_calls = [PinMode 13 OUTPUT, DigitalWrite 13 LOW, DigitalWrite 13 HIGH,
           DigitalWrite 13 LOW]\<rparr>)"
proof -
  have w: "10 \<le> LENGTH(32)"
    by simp
  show ?thesis
    using w scenario_pin13 [OF w, of 0] by blast
qed

text \<open>
  C7. The pin is the one given to the constructor, and no operation changes it: not
  \<open>begin()\<close>, not \<open>blink\<close>, and so no sequence of calls. \<open>begin()\<close> leaves \<open>_state\<close> and
  \<open>_lastToggle\<close> as they are too, so that only \<open>blink\<close> assigns them.
\<close>

theorem pin_fixed_and_begin_frame:
  "pin (StatusLed_ctor p) = p
   \<and> pin (fst (StatusLed_begin (self, b))) = pin self
   \<and> state (fst (StatusLed_begin (self, b))) = state self
   \<and> lastToggle (fst (StatusLed_begin (self, b))) = lastToggle self
   \<and> pin (fst (StatusLed_blink intervalMs (self, b))) = pin self
   \<and> pin (fst (run es (self, b))) = pin self"
proof -
  have "pin (fst (step (Blink intervalMs) (self, b))) = pin (fst (self, b))"
    by (rule pin_step)
  then show ?thesis
    by (simp add: StatusLed_ctor_def begin_result pin_run)
qed

end
